theory Spec2Isabelle
  imports Main "HOL-Library.AList" "HOL-Library.Multiset" "HOL-Library.Product_Lexorder"
    "HOL-Library.Monad_Syntax"
begin

section \<open>Timestamps\<close>

text \<open>
  A Go \<open>time.Time\<close> is an instant together with a location. It is represented by the
  fields that \<open>time.Date(year, month, day, hour, min, sec, nsec, loc)\<close> takes and that the
  accessors \<open>Year()\<close>, \<open>Month()\<close>, ... return: the wall-clock date and time in the value's
  own location, and the location's offset east of UTC in seconds. Only the offset of a
  location is observed by the program (through \<open>Format\<close>).
\<close>

record Time =
  Year :: int
  Month :: nat
  Day :: nat
  Hour :: nat
  Minute :: nat
  Second :: nat
  Nanosecond :: nat
  ZoneOffset :: int

definition isLeap :: "int \<Rightarrow> bool" where
  "isLeap y = (y mod 4 = 0 \<and> (y mod 100 \<noteq> 0 \<or> y mod 400 = 0))"

definition daysIn :: "nat \<Rightarrow> int \<Rightarrow> nat" where
  "daysIn m y =
     (if m = 2 then (if isLeap y then 29 else 28)
      else if m = 4 \<or> m = 6 \<or> m = 9 \<or> m = 11 then 30 else 31)"

text \<open>
  The values of the representation that are Go times: every field within the range of
  its accessor.
\<close>

definition validTime :: "Time \<Rightarrow> bool" where
  "validTime t =
     (1 \<le> Month t \<and> Month t \<le> 12 \<and> 1 \<le> Day t \<and> Day t \<le> daysIn (Month t) (Year t) \<and>
      Hour t < 24 \<and> Minute t < 60 \<and> Second t < 60 \<and> Nanosecond t < 1000000000)"

text \<open>
  Days from 1970-01-01 to a date of the proleptic Gregorian calendar, which is the
  calendar of \<open>time.Date\<close>; \<open>div\<close> on \<open>int\<close> rounds down, as the era computation needs.
\<close>

definition daysFromCivil :: "int \<Rightarrow> nat \<Rightarrow> nat \<Rightarrow> int" where
  "daysFromCivil y m d =
     (let y' = (if m \<le> 2 then y - 1 else y);
          era = y' div 400;
          yoe = y' - era * 400;
          mp = (if m > 2 then int m - 3 else int m + 9);
          doy = (153 * mp + 2) div 5 + int d - 1;
          doe = yoe * 365 + yoe div 4 - yoe div 100 + doy
      in era * 146097 + doe - 719468)"

definition unixNano :: "Time \<Rightarrow> int" where
  "unixNano t =
     ((daysFromCivil (Year t) (Month t) (Day t) * 86400 + int (Hour t) * 3600 +
       int (Minute t) * 60 + int (Second t) - ZoneOffset t) * 1000000000 +
      int (Nanosecond t))"

text \<open>\<open>t.Before(u)\<close>: the instant of \<open>t\<close> is earlier than that of \<open>u\<close>.\<close>

definition Before :: "Time \<Rightarrow> Time \<Rightarrow> bool" where
  "Before t u = (unixNano t < unixNano u)"

subsection \<open>Decimal rendering\<close>

definition digitChar :: "nat \<Rightarrow> char" where
  "digitChar d = ''0123456789'' ! d"

fun decimal :: "nat \<Rightarrow> string" where
  "decimal n = (if n < 10 then [digitChar n] else decimal (n div 10) @ [digitChar (n mod 10)])"

declare decimal.simps [simp del]

text \<open>\<open>strconv.Itoa\<close>.\<close>

definition Itoa :: "int \<Rightarrow> string" where
  "Itoa x = (if x < 0 then ''-'' @ decimal (nat (- x)) else decimal (nat x))"

text \<open>
  \<open>appendInt(b, x, width)\<close> of package time: a minus sign for a negative number, then
  the decimal digits, padded with zeros on the left to at least \<open>width\<close> digits.
\<close>

definition appendInt :: "int \<Rightarrow> nat \<Rightarrow> string" where
  "appendInt x width =
     (let ds = decimal (nat \<bar>x\<bar>)
      in (if x < 0 then ''-'' else []) @ replicate (width - length ds) (CHR ''0'') @ ds)"

subsection \<open>Formatting\<close>

text \<open>
  \<open>t.Format(time.RFC3339)\<close>, layout \<open>2006-01-02T15:04:05Z07:00\<close>: the wall-clock date and
  time to the second, then \<open>Z\<close> when the offset is zero and \<open>+hh:mm\<close> or \<open>-hh:mm\<close> otherwise.
  The offset is turned into minutes by Go's integer division, which truncates towards
  zero.
\<close>

definition formatZone :: "int \<Rightarrow> string" where
  "formatZone off =
     (if off = 0 then ''Z''
      else let zone = (if off < 0 then - ((- off) div 60) else off div 60)
           in (if zone < 0 then ''-'' else ''+'') @
              appendInt (\<bar>zone\<bar> div 60) 2 @ '':'' @ appendInt (\<bar>zone\<bar> mod 60) 2)"

definition formatSeconds :: "Time \<Rightarrow> string" where
  "formatSeconds t =
     appendInt (Year t) 4 @ ''-'' @ appendInt (int (Month t)) 2 @ ''-'' @
     appendInt (int (Day t)) 2 @ ''T'' @ appendInt (int (Hour t)) 2 @ '':'' @
     appendInt (int (Minute t)) 2 @ '':'' @ appendInt (int (Second t)) 2"

definition formatRFC3339 :: "Time \<Rightarrow> string" where
  "formatRFC3339 t = formatSeconds t @ formatZone (ZoneOffset t)"

text \<open>
  \<open>t.Format("2006-01-02T15:04:05.000Z")\<close>. In this layout \<open>.000\<close> is the fractional second
  cut (not rounded) to three digits, and the final \<open>Z\<close> is not a zone element of the
  layout language (those are \<open>Z07:00\<close>, \<open>Z0700\<close>, ...): it is copied as a literal. The
  date and time printed are the wall-clock fields in the value's own location.
\<close>

definition formatMillisZ :: "Time \<Rightarrow> string" where
  "formatMillisZ t =
     formatSeconds t @ ''.'' @ take 3 (appendInt (int (Nanosecond t)) 9) @ ''Z''"

subsection \<open>Parsing\<close>

text \<open>The helpers of package time that \<open>time.Parse\<close> reads numbers with.\<close>

definition isDigitChar :: "char \<Rightarrow> bool" where
  "isDigitChar c = (48 \<le> (of_char c :: nat) \<and> (of_char c :: nat) \<le> 57)"

definition isDigit :: "string \<Rightarrow> nat \<Rightarrow> bool" where
  "isDigit s i = (i < length s \<and> isDigitChar (s ! i))"

definition digitVal :: "char \<Rightarrow> nat" where
  "digitVal c = of_char c - 48"

text \<open>
  \<open>getnum(s, fixed)\<close>: one or two digits; with \<open>fixed\<close>, exactly two. The result is the
  number and the rest of the string.
\<close>

definition getnum :: "string \<Rightarrow> bool \<Rightarrow> (nat \<times> string) option" where
  "getnum s fixed =
     (if \<not> isDigit s 0 then None
      else if \<not> isDigit s 1 then (if fixed then None else Some (digitVal (s ! 0), drop 1 s))
      else Some (digitVal (s ! 0) * 10 + digitVal (s ! 1), drop 2 s))"

text \<open>
  \<open>atoi(s)\<close>: an optional sign, then digits to the end of the string. It is applied to
  strings of three and four bytes only, so the overflow check of \<open>leadingInt\<close> never
  fires and is left out.
\<close>

definition atoi :: "string \<Rightarrow> int option" where
  "atoi s =
     (let neg = (s \<noteq> [] \<and> hd s = CHR ''-'');
          ds = (if s \<noteq> [] \<and> (hd s = CHR ''-'' \<or> hd s = CHR ''+'') then tl s else s)
      in if list_all isDigitChar ds
         then Some ((if neg then - 1 else 1) * int (foldl (\<lambda>x c. x * 10 + digitVal c) 0 ds))
         else None)"

text \<open>\<open>skip(value, prefix)\<close> for a one-byte prefix other than a space.\<close>

definition skip :: "string \<Rightarrow> char \<Rightarrow> string option" where
  "skip v c = (if v = [] \<or> hd v \<noteq> c then None else Some (tl v))"

definition check :: "bool \<Rightarrow> unit option" where
  "check b = (if b then Some () else None)"

text \<open>
  \<open>parseNanoseconds(value, nbytes)\<close> with \<open>nbytes = 4\<close>, for the layout element \<open>.000\<close>: a
  period or comma, then three bytes read by \<open>atoi\<close>, scaled to nanoseconds.
\<close>

definition parseNanoseconds :: "string \<Rightarrow> nat option" where
  "parseNanoseconds v =
     (if \<not> (hd v = CHR ''.'' \<or> hd v = CHR '','') then None
      else case atoi (take 3 (drop 1 v)) of
             None \<Rightarrow> None
           | Some ns \<Rightarrow> (if ns < 0 then None else Some (nat ns * 1000000)))"

text \<open>
  \<open>time.Parse("2006-01-02T15:04:05.000Z", value)\<close>, element by element: a four-digit
  year, two-digit month and day, an hour of one or two digits (the layout element \<open>15\<close>
  is not of fixed width), two-digit minute and second, the fractional second of exactly
  three digits, the literal \<open>Z\<close>, and nothing after it. The layout has no zone element,
  so the result is in UTC. \<open>None\<close> is any parse error.
\<close>

definition parseMillisZ :: "string \<Rightarrow> Time option" where
  "parseMillisZ value = do {
     _ \<leftarrow> check (\<not> (length value < 4 \<or> \<not> isDigit value 0));
     year \<leftarrow> atoi (take 4 value);
     v \<leftarrow> skip (drop 4 value) (CHR ''-'');
     (month, v) \<leftarrow> getnum v True;
     _ \<leftarrow> check (\<not> (month \<le> 0 \<or> 12 < month));
     v \<leftarrow> skip v (CHR ''-'');
     (day, v) \<leftarrow> getnum v True;
     v \<leftarrow> skip v (CHR ''T'');
     (hour, v) \<leftarrow> getnum v False;
     _ \<leftarrow> check (\<not> 24 \<le> hour);
     v \<leftarrow> skip v (CHR '':'');
     (minute, v) \<leftarrow> getnum v True;
     _ \<leftarrow> check (\<not> 60 \<le> minute);
     v \<leftarrow> skip v (CHR '':'');
     (sec, v) \<leftarrow> getnum v True;
     _ \<leftarrow> check (\<not> 60 \<le> sec);
     _ \<leftarrow> check (\<not> length v < 4);
     nsec \<leftarrow> parseNanoseconds v;
     v \<leftarrow> skip (drop 4 v) (CHR ''Z'');
     _ \<leftarrow> check (v = []);
     _ \<leftarrow> check (\<not> (day < 1 \<or> day > daysIn month year));
     Some \<lparr>Year = year, Month = month, Day = day, Hour = hour, Minute = minute,
           Second = sec, Nanosecond = nsec, ZoneOffset = 0\<rparr>
   }"

section \<open>Events\<close>

record Event =
  Code :: string
  EndAt :: Time
  IsEventParticipant :: bool
  Name :: string
  StartAt :: Time
  Typename :: string
  IsTest :: "bool option"

text \<open>
  The key under which \<open>hasChanges\<close> and \<open>mergeEvents\<close> file an event:
  \<open>StartAt.Format(time.RFC3339) + "_" + EndAt.Format(time.RFC3339)\<close>.
\<close>

definition eventKey :: "Event \<Rightarrow> string" where
  "eventKey event = formatRFC3339 (StartAt event) @ ''_'' @ formatRFC3339 (EndAt event)"

subsection \<open>Sorting by start time\<close>

text \<open>
  \<open>sort.Slice(events, func(i, j) bool { return events[i].StartAt.Before(events[j].StartAt) })\<close>.
  \<open>sort.Slice\<close> is not stable, and \<open>mergeEvents\<close> fills the slice by ranging over a map,
  whose order Go leaves unspecified. What is guaranteed is a rearrangement of the slice
  in which no element starts before an earlier one. The order among events of equal
  start instant is a choice of the runtime; it is the parameter \<open>tb\<close>, which ranks the
  positions of the slice. Events are ordered by start instant and, among equal
  instants, by the rank of their position.
\<close>

type_synonym tiebreak = "nat \<Rightarrow> nat"

definition sortByStartAt :: "tiebreak \<Rightarrow> Event list \<Rightarrow> Event list" where
  "sortByStartAt tb events =
     map snd (sort_key (\<lambda>(i, event). (unixNano (StartAt event), tb i)) (enumerate 0 events))"

subsection \<open>Change detection and merging\<close>

text \<open>
  The second loop of \<open>hasChanges\<close>: the first event whose key is not in the map ends the
  search. Reading a Go \<open>map[string]bool\<close> at an absent key gives \<open>false\<close>, so the map is a
  total function that is \<open>False\<close> by default.
\<close>

primrec missingFrom :: "(string \<Rightarrow> bool) \<Rightarrow> Event list \<Rightarrow> bool" where
  "missingFrom existingMap [] = False"
| "missingFrom existingMap (event # rest) =
     (if \<not> existingMap (eventKey event) then True else missingFrom existingMap rest)"

definition hasChanges :: "Event list \<Rightarrow> Event list \<Rightarrow> bool" where
  "hasChanges existing new =
     (if length existing \<noteq> length new then True
      else let existingMap = fold (\<lambda>event m. m(eventKey event := True)) existing (\<lambda>_. False)
           in missingFrom existingMap new)"

text \<open>
  \<open>mergeEvents\<close>. The Go map \<open>eventMap\<close> is an association list with one entry per
  key: storing under a key that is present replaces the entry. \<open>eventMap existing new\<close>
  is the map after the two loops, over \<open>existing\<close> and then over \<open>new\<close>.
\<close>

definition eventMap :: "Event list \<Rightarrow> Event list \<Rightarrow> (string \<times> Event) list" where
  "eventMap existing new =
     fold (\<lambda>event m. AList.update (eventKey event) event m) new
       (fold (\<lambda>event m. AList.update (eventKey event) event m) existing [])"

definition mergeEvents :: "tiebreak \<Rightarrow> Event list \<Rightarrow> Event list \<Rightarrow> Event list" where
  "mergeEvents tb existing new =
     (let merged = map snd (eventMap existing new)
      in sortByStartAt tb merged)"

subsection \<open>Sequential codes\<close>

definition assignSequentialCodes :: "tiebreak \<Rightarrow> Event list \<Rightarrow> Event list" where
  "assignSequentialCodes tb events =
     map (\<lambda>(i, event). event\<lparr>Code := Itoa (int i + 1)\<rparr>) (enumerate 0 (sortByStartAt tb events))"

section \<open>JSON documents\<close>

text \<open>
  The bytes of a JSON text are modelled by the document they spell: \<open>encoding/json\<close> is
  taken to write a document and to read the same document back. Strings are sequences
  of bytes of valid UTF-8 text. What the program's own types add (field names,
  \<open>omitempty\<close>, the decoding of each field) is modelled on the document.
\<close>

datatype json =
    JNull
  | JBool bool
  | JNumber string
  | JString string
  | JArray "json list"
  | JObject "(string \<times> json) list"

record OutputEvent =
  outStart :: string
  outEnd :: string
  outCode :: string
  outIsTest :: "bool option"

record OutputData =
  Data :: "OutputEvent list"

datatype error =
    ErrNotExist
  | ErrPermission
  | SyntaxError
  | UnmarshalTypeError
  | ParseError
  | FailedToParseStartTime error
  | FailedToParseEndTime error
  | Wrap string error
  | SafetyCheckFailed nat nat
  | TransportError
  | UnexpectedStatusCode nat

subsection \<open>Encoding\<close>

text \<open>
  \<open>json.MarshalIndent\<close> of an \<open>OutputData\<close>: the fields in the order of the struct, under
  the names of their tags. \<open>is_test\<close> is a \<open>*bool\<close> tagged \<open>omitempty\<close>: a nil pointer is
  left out, a pointer to a value is written as that value. Encoding these types cannot
  fail, so the error branch of \<open>saveEvents\<close> after \<open>MarshalIndent\<close> is never taken.
\<close>

definition marshalOutputEvent :: "OutputEvent \<Rightarrow> json" where
  "marshalOutputEvent e =
     JObject ([(''start'', JString (outStart e)), (''end'', JString (outEnd e)),
               (''code'', JString (outCode e))] @
              (case outIsTest e of None \<Rightarrow> [] | Some b \<Rightarrow> [(''is_test'', JBool b)]))"

definition marshalOutputData :: "OutputData \<Rightarrow> json" where
  "marshalOutputData d = JObject [(''data'', JArray (map marshalOutputEvent (Data d)))]"

subsection \<open>Decoding\<close>

text \<open>
  \<open>json.Unmarshal\<close> matches an object's key with a struct field whose name is equal to
  it under Unicode simple case folding. For the ASCII names of the fields here, the key
  may differ in the case of its letters, and may hold U+017F for \<open>s\<close> and U+212A for \<open>k\<close>.
\<close>

definition lowerChar :: "char \<Rightarrow> char" where
  "lowerChar c =
     (if 65 \<le> (of_char c :: nat) \<and> (of_char c :: nat) \<le> 90 then char_of (of_char c + 32 :: nat) else c)"

fun foldName :: "string \<Rightarrow> string" where
  "foldName (a # b # c # rest) =
     (if a = CHR 0xE2 \<and> b = CHR 0x84 \<and> c = CHR 0xAA then CHR ''k'' # foldName rest
      else if a = CHR 0xC5 \<and> b = CHR 0xBF then CHR ''s'' # foldName (c # rest)
      else lowerChar a # foldName (b # c # rest))"
| "foldName [a, b] =
     (if a = CHR 0xC5 \<and> b = CHR 0xBF then ''s'' else [lowerChar a, lowerChar b])"
| "foldName [a] = [lowerChar a]"
| "foldName [] = []"

text \<open>
  Decoding a value into a field. \<open>null\<close> leaves a string as it was and sets a pointer
  to nil; a value of another kind than the field's is an \<open>UnmarshalTypeError\<close>.
\<close>

definition decodeString :: "string \<Rightarrow> json \<Rightarrow> error + string" where
  "decodeString old j =
     (case j of JString s \<Rightarrow> Inr s | JNull \<Rightarrow> Inr old | _ \<Rightarrow> Inl UnmarshalTypeError)"

definition decodeBoolPtr :: "json \<Rightarrow> error + bool option" where
  "decodeBoolPtr j =
     (case j of JBool b \<Rightarrow> Inr (Some b) | JNull \<Rightarrow> Inr None | _ \<Rightarrow> Inl UnmarshalTypeError)"

text \<open>
  An object is decoded member by member, in the order of the text, each into the
  field its key names; a member of another key is skipped, and a repeated key decodes
  again into the same field.
\<close>

definition decodeEventMember :: "OutputEvent \<Rightarrow> string \<times> json \<Rightarrow> error + OutputEvent" where
  "decodeEventMember e kv =
     (let k = foldName (fst kv); j = snd kv in
      if k = ''start'' then map_sum id (\<lambda>s. e\<lparr>outStart := s\<rparr>) (decodeString (outStart e) j)
      else if k = ''end'' then map_sum id (\<lambda>s. e\<lparr>outEnd := s\<rparr>) (decodeString (outEnd e) j)
      else if k = ''code'' then map_sum id (\<lambda>s. e\<lparr>outCode := s\<rparr>) (decodeString (outCode e) j)
      else if k = ''is_test'' then map_sum id (\<lambda>b. e\<lparr>outIsTest := b\<rparr>) (decodeBoolPtr j)
      else Inr e)"

fun decodeEventMembers :: "OutputEvent \<Rightarrow> (string \<times> json) list \<Rightarrow> error + OutputEvent" where
  "decodeEventMembers e [] = Inr e"
| "decodeEventMembers e (kv # kvs) =
     (case decodeEventMember e kv of Inl err \<Rightarrow> Inl err | Inr e' \<Rightarrow> decodeEventMembers e' kvs)"

definition decodeOutputEvent :: "OutputEvent \<Rightarrow> json \<Rightarrow> error + OutputEvent" where
  "decodeOutputEvent e j =
     (case j of
        JObject kvs \<Rightarrow> decodeEventMembers e kvs
      | JNull \<Rightarrow> Inr e
      | _ \<Rightarrow> Inl UnmarshalTypeError)"

definition zeroOutputEvent :: OutputEvent where
  "zeroOutputEvent = \<lparr>outStart = [], outEnd = [], outCode = [], outIsTest = None\<rparr>"

text \<open>
  An array is decoded into a slice element by element: into the element that the slice
  already holds at that index when a repeated key decodes into a slice filled before,
  and into a zero value otherwise. The slice ends with as many elements as the array.
\<close>

fun decodeElements :: "OutputEvent list \<Rightarrow> json list \<Rightarrow> error + OutputEvent list" where
  "decodeElements old [] = Inr []"
| "decodeElements old (j # js) =
     (case decodeOutputEvent (case old of [] \<Rightarrow> zeroOutputEvent | e # _ \<Rightarrow> e) j of
        Inl err \<Rightarrow> Inl err
      | Inr e \<Rightarrow> (case decodeElements (tl old) js of
                   Inl err \<Rightarrow> Inl err
                 | Inr es \<Rightarrow> Inr (e # es)))"

definition decodeSlice :: "OutputEvent list \<Rightarrow> json \<Rightarrow> error + OutputEvent list" where
  "decodeSlice old j =
     (case j of
        JArray js \<Rightarrow> decodeElements old js
      | JNull \<Rightarrow> Inr []
      | _ \<Rightarrow> Inl UnmarshalTypeError)"

fun decodeDataMembers :: "OutputData \<Rightarrow> (string \<times> json) list \<Rightarrow> error + OutputData" where
  "decodeDataMembers d [] = Inr d"
| "decodeDataMembers d (kv # kvs) =
     (if foldName (fst kv) = ''data''
      then (case decodeSlice (Data d) (snd kv) of
              Inl err \<Rightarrow> Inl err
            | Inr es \<Rightarrow> decodeDataMembers (d\<lparr>Data := es\<rparr>) kvs)
      else decodeDataMembers d kvs)"

text \<open>
  \<open>json.Unmarshal(data, &outputData)\<close> with \<open>outputData\<close> a zero value. Go's decoder goes
  on after an \<open>UnmarshalTypeError\<close> and reports it at the end; the callers here drop the
  value whenever an error is reported, so the model stops at the first one.
\<close>

definition unmarshalOutputData :: "json \<Rightarrow> error + OutputData" where
  "unmarshalOutputData j =
     (case j of
        JObject kvs \<Rightarrow> decodeDataMembers \<lparr>Data = []\<rparr> kvs
      | JNull \<Rightarrow> Inr \<lparr>Data = []\<rparr>
      | _ \<Rightarrow> Inl UnmarshalTypeError)"

section \<open>The output file\<close>

text \<open>
  A file holds a JSON text, given by its document, or bytes that are not a JSON text.
  \<open>os.ReadFile\<close> fails on a path that does not exist, and on one that exists and cannot
  be read. \<open>os.WriteFile\<close> fails on the paths of \<open>writeFails\<close>; a write that fails is
  taken to fail on opening the file, which leaves the file as it was.
\<close>

datatype content = NotJSON | Doc json

datatype fileState = Missing | Unreadable | Regular content

record FS =
  files :: "string \<Rightarrow> fileState"
  writeFails :: "string \<Rightarrow> bool"

definition ReadFile :: "FS \<Rightarrow> string \<Rightarrow> error + content" where
  "ReadFile fs name =
     (case files fs name of
        Missing \<Rightarrow> Inl ErrNotExist
      | Unreadable \<Rightarrow> Inl ErrPermission
      | Regular data \<Rightarrow> Inr data)"

definition WriteFile :: "FS \<Rightarrow> string \<Rightarrow> content \<Rightarrow> FS \<times> error option" where
  "WriteFile fs name data =
     (if writeFails fs name then (fs, Some ErrPermission)
      else (fs\<lparr>files := (files fs)(name := Regular data)\<rparr>, None))"

text \<open>\<open>os.IsNotExist(err)\<close>.\<close>

definition IsNotExist :: "error \<Rightarrow> bool" where
  "IsNotExist err = (err = ErrNotExist)"

definition Unmarshal :: "content \<Rightarrow> error + OutputData" where
  "Unmarshal data = (case data of NotJSON \<Rightarrow> Inl SyntaxError | Doc j \<Rightarrow> unmarshalOutputData j)"

subsection \<open>Saving and loading\<close>

definition convertToOutputFormat :: "Event list \<Rightarrow> OutputData" where
  "convertToOutputFormat events =
     \<lparr>Data = map (\<lambda>event. \<lparr>outStart = formatMillisZ (StartAt event),
                                 outEnd = formatMillisZ (EndAt event),
                                 outCode = Code event,
                                 outIsTest = IsTest event\<rparr>) events\<rparr>"

definition saveEvents :: "FS \<Rightarrow> Event list \<Rightarrow> string \<Rightarrow> FS \<times> error option" where
  "saveEvents fs events filename =
     (let outputData = convertToOutputFormat events;
          data = Doc (marshalOutputData outputData)
      in WriteFile fs filename data)"

text \<open>
  The event that \<open>loadExistingEvents\<close> and \<open>fetchDavidKendallData\<close> build from an entry: the
  fields they do not set are zero values.
\<close>

definition newEvent :: "string \<Rightarrow> Time \<Rightarrow> Time \<Rightarrow> bool option \<Rightarrow> Event" where
  "newEvent code startTime endTime isTest =
     \<lparr>Code = code, EndAt = endTime, IsEventParticipant = False, Name = [],
      StartAt = startTime, Typename = [], IsTest = isTest\<rparr>"

text \<open>The loop of \<open>loadExistingEvents\<close>: the first entry whose time does not parse ends it.\<close>

fun toEvents :: "OutputEvent list \<Rightarrow> error + Event list" where
  "toEvents [] = Inr []"
| "toEvents (outputEvent # rest) =
     (case parseMillisZ (outStart outputEvent) of
        None \<Rightarrow> Inl (FailedToParseStartTime ParseError)
      | Some startTime \<Rightarrow>
          (case parseMillisZ (outEnd outputEvent) of
             None \<Rightarrow> Inl (FailedToParseEndTime ParseError)
           | Some endTime \<Rightarrow>
               (case toEvents rest of
                  Inl err \<Rightarrow> Inl err
                | Inr events \<Rightarrow>
                    Inr (newEvent (outCode outputEvent) startTime endTime (outIsTest outputEvent)
                         # events))))"

definition loadExistingEvents :: "FS \<Rightarrow> string \<Rightarrow> error + Event list" where
  "loadExistingEvents fs filename =
     (case ReadFile fs filename of
        Inl err \<Rightarrow> Inl err
      | Inr data \<Rightarrow>
          (case Unmarshal data of
             Inl err \<Rightarrow> Inl err
           | Inr outputData \<Rightarrow> toEvents (Data outputData)))"


section \<open>The run\<close>

record Config =
  AccountNumber :: string
  MeterPointID :: string
  APIKey :: string
  OutputFile :: string

text \<open>
  What a run meets outside the program's own code: what the two fetches return (a
  Go pair of events and error), which of the two results arrives first on the channel,
  and the runtime's choices in the three sorts of the run.
\<close>

record Runtime =
  octopusFetch :: "Event list \<times> error option"
  davidKendallFetch :: "Event list \<times> error option"
  octopusFirst :: bool
  tieExternal :: tiebreak
  tieOctopus :: tiebreak
  tieCodes :: tiebreak

record fetchResult =
  fr_events :: "Event list"
  fr_source :: string
  fr_err :: "error option"

text \<open>The two goroutines: each sends one result; the channel delivers them in either order.\<close>

definition results :: "Runtime \<Rightarrow> fetchResult list" where
  "results rt =
     (let octopus = \<lparr>fr_events = fst (octopusFetch rt), fr_source = ''octopus'',
                      fr_err = snd (octopusFetch rt)\<rparr>;
          david = \<lparr>fr_events = fst (davidKendallFetch rt), fr_source = ''david_kendall'',
                    fr_err = snd (davidKendallFetch rt)\<rparr>
      in if octopusFirst rt then [octopus, david] else [david, octopus])"

text \<open>
  One turn of the collecting loop, on the pair \<open>(octopusEvents, externalEvents)\<close>: a
  result with an error puts the empty list in its source's place.
\<close>

definition collectOne :: "fetchResult \<Rightarrow> Event list \<times> Event list \<Rightarrow> Event list \<times> Event list" where
  "collectOne result acc =
     (if fr_err result \<noteq> None
      then (if fr_source result = ''octopus'' then ([], snd acc) else (fst acc, []))
      else (if fr_source result = ''octopus'' then (fr_events result, snd acc)
            else (fst acc, fr_events result)))"

definition collect :: "Runtime \<Rightarrow> Event list \<times> Event list" where
  "collect rt = fold collectOne (results rt) ([], [])"

text \<open>The merged dataset \<open>allEvents\<close>, from the loaded events and the collected ones.\<close>

definition allEvents :: "Runtime \<Rightarrow> Event list \<Rightarrow> Event list" where
  "allEvents rt existingEvents =
     (let octopusEvents = fst (collect rt);
          externalEvents = snd (collect rt);
          allEvents = existingEvents;
          allEvents = (if length externalEvents > 0
                       then mergeEvents (tieExternal rt) allEvents externalEvents else allEvents);
          allEvents = (if length octopusEvents > 0
                       then mergeEvents (tieOctopus rt) allEvents octopusEvents else allEvents)
      in allEvents)"

definition finalEvents :: "Runtime \<Rightarrow> Event list \<Rightarrow> Event list" where
  "finalEvents rt existingEvents = assignSequentialCodes (tieCodes rt) (allEvents rt existingEvents)"

text \<open>The run from the loaded events on.\<close>

definition reconcile :: "Config \<Rightarrow> Runtime \<Rightarrow> FS \<Rightarrow> Event list \<Rightarrow> FS \<times> error option" where
  "reconcile config rt fs existingEvents =
     (if \<not> hasChanges existingEvents (allEvents rt existingEvents) then (fs, None)
      else if length (finalEvents rt existingEvents) < length existingEvents
      then (fs, Some (SafetyCheckFailed (length existingEvents)
                        (length (finalEvents rt existingEvents))))
      else case saveEvents fs (finalEvents rt existingEvents) (OutputFile config) of
             (fs', Some err) \<Rightarrow> (fs', Some (Wrap ''failed to save events'' err))
           | (fs', None) \<Rightarrow> (fs', None))"

text \<open>
  \<open>fetchAndUpdateEvents\<close>. An error of \<open>loadExistingEvents\<close> ends the run unless it is
  that the file does not exist; then \<open>existingEvents\<close> is the nil slice.
\<close>

definition fetchAndUpdateEvents :: "Config \<Rightarrow> Runtime \<Rightarrow> FS \<Rightarrow> FS \<times> error option" where
  "fetchAndUpdateEvents config rt fs =
     (case loadExistingEvents fs (OutputFile config) of
        Inl err \<Rightarrow>
          (if \<not> IsNotExist err then (fs, Some (Wrap ''failed to load existing events'' err))
           else reconcile config rt fs [])
      | Inr existingEvents \<Rightarrow> reconcile config rt fs existingEvents)"

text \<open>A sequence of runs on the same output file, each with its own surroundings.\<close>

fun runs :: "Config \<Rightarrow> Runtime list \<Rightarrow> FS \<Rightarrow> FS" where
  "runs config [] fs = fs"
| "runs config (rt # rts) fs = runs config rts (fst (fetchAndUpdateEvents config rt fs))"

text \<open>
  The number of events of the persisted dataset: the entries of the file's \<open>data\<close>
  array, and none when there is no file or it does not decode.
\<close>

definition persistedCount :: "FS \<Rightarrow> string \<Rightarrow> nat" where
  "persistedCount fs filename =
     (case ReadFile fs filename of
        Inl err \<Rightarrow> 0
      | Inr data \<Rightarrow> (case Unmarshal data of Inl err \<Rightarrow> 0 | Inr outputData \<Rightarrow> length (Data outputData)))"

section \<open>The cache of the secondary source\<close>

text \<open>
  A cache directory holds two files, \<open>etag\<close> and \<open>david_events.json\<close>, each given by its
  bytes, or \<open>None\<close> when \<open>os.ReadFile\<close> fails on it. \<open>cacheReadOnly\<close> is a directory in which
  \<open>os.WriteFile\<close> fails.
\<close>

record CacheDir =
  etagFile :: "string option"
  eventsFile :: "string option"
  cacheReadOnly :: bool

type_synonym Disk = "string \<Rightarrow> CacheDir"

text \<open>
  \<open>json.Unmarshal\<close> and \<open>json.Marshal\<close> at the type \<open>[]Event\<close>, whose \<open>time.Time\<close> fields
  have the JSON form of package time, are parameters: \<open>None\<close> is a returned error.
\<close>

record EventCodec =
  unmarshalEvents :: "string \<Rightarrow> Event list option"
  marshalEvents :: "Event list \<Rightarrow> string option"

definition cacheDir :: string where
  "cacheDir = ''.cache''"

definition getCachedETagFromDir :: "Disk \<Rightarrow> string \<Rightarrow> string" where
  "getCachedETagFromDir disk dir = (case etagFile (disk dir) of None \<Rightarrow> [] | Some data \<Rightarrow> data)"

definition cacheETagToDir :: "Disk \<Rightarrow> string \<Rightarrow> string \<Rightarrow> Disk" where
  "cacheETagToDir disk dir etag =
     (if cacheReadOnly (disk dir) then disk else disk(dir := (disk dir)\<lparr>etagFile := Some etag\<rparr>))"

definition getCachedEventsFromDir :: "EventCodec \<Rightarrow> Disk \<Rightarrow> string \<Rightarrow> Event list \<times> error option" where
  "getCachedEventsFromDir codec disk dir =
     (case eventsFile (disk dir) of
        None \<Rightarrow> ([], None)
      | Some data \<Rightarrow>
          (case unmarshalEvents codec data of
             None \<Rightarrow> ([], None)
           | Some events \<Rightarrow> (events, None)))"

definition getCachedEvents :: "EventCodec \<Rightarrow> Disk \<Rightarrow> Event list \<times> error option" where
  "getCachedEvents codec disk = getCachedEventsFromDir codec disk cacheDir"

text \<open>\<open>cacheEventsToDir\<close> drops the error of \<open>json.Marshal\<close> and writes the bytes it got.\<close>

definition cacheEventsToDir :: "EventCodec \<Rightarrow> Disk \<Rightarrow> string \<Rightarrow> Event list \<Rightarrow> Disk" where
  "cacheEventsToDir codec disk dir events =
     (let data = (case marshalEvents codec events of None \<Rightarrow> [] | Some bytes \<Rightarrow> bytes)
      in if cacheReadOnly (disk dir) then disk
         else disk(dir := (disk dir)\<lparr>eventsFile := Some data\<rparr>))"

definition cacheETag :: "Disk \<Rightarrow> string \<Rightarrow> Disk" where
  "cacheETag disk etag = cacheETagToDir disk cacheDir etag"

definition cacheEvents :: "EventCodec \<Rightarrow> Disk \<Rightarrow> Event list \<Rightarrow> Disk" where
  "cacheEvents codec disk events = cacheEventsToDir codec disk cacheDir events"

text \<open>
  The answer to the GET request: a transport error, or a response with its status
  code, its \<open>ETag\<close> header (empty when absent) and its body.
\<close>

datatype httpResult = TransportFailure | Response nat string content

text \<open>The conversion loop of \<open>fetchDavidKendallData\<close>: an entry whose time does not parse is skipped.\<close>

fun convertEntries :: "OutputEvent list \<Rightarrow> Event list" where
  "convertEntries [] = []"
| "convertEntries (outputEvent # rest) =
     (case parseMillisZ (outStart outputEvent) of
        None \<Rightarrow> convertEntries rest
      | Some startTime \<Rightarrow>
          (case parseMillisZ (outEnd outputEvent) of
             None \<Rightarrow> convertEntries rest
           | Some endTime \<Rightarrow>
               newEvent (outCode outputEvent) startTime endTime (outIsTest outputEvent)
               # convertEntries rest))"

text \<open>
  \<open>fetchDavidKendallData\<close>. \<open>http.NewRequest\<close> gets a constant method and URL and does not
  fail. The cached ETag only goes into the request's \<open>If-None-Match\<close> header; the answer
  of the server is given.
\<close>

definition fetchDavidKendallData :: "EventCodec \<Rightarrow> Disk \<Rightarrow> httpResult \<Rightarrow> Disk \<times> Event list \<times> error option" where
  "fetchDavidKendallData codec disk answer =
     (case answer of
        TransportFailure \<Rightarrow> (disk, [], Some TransportError)
      | Response statusCode etag body \<Rightarrow>
          (if statusCode = 304 then (disk, getCachedEvents codec disk)
           else if statusCode \<noteq> 200 then (disk, [], Some (UnexpectedStatusCode statusCode))
           else (case Unmarshal body of
                   Inl err \<Rightarrow> (disk, [], Some err)
                 | Inr outputData \<Rightarrow>
                     (let disk' = (if etag \<noteq> [] then cacheETag disk etag else disk) in
                      let events = convertEntries (Data outputData) in
                      let disk'' = cacheEvents codec disk' events
                      in (disk'', events, None)))))"

section \<open>Example values\<close>

text \<open>
  \<open>time.Date(y, m, d, h, mi, s, ns, loc)\<close> for arguments within their ranges and a location
  of offset \<open>off\<close>, and four events: \<open>exA\<close> and \<open>exC\<close> have the same times, \<open>exB\<close> starts half
  a second after them, \<open>exD\<close> is two hours later.
\<close>

definition Date :: "int \<Rightarrow> nat \<Rightarrow> nat \<Rightarrow> nat \<Rightarrow> nat \<Rightarrow> nat \<Rightarrow> nat \<Rightarrow> int \<Rightarrow> Time" where
  "Date y m d h mi s ns off =
     \<lparr>Year = y, Month = m, Day = d, Hour = h, Minute = mi, Second = s, Nanosecond = ns,
      ZoneOffset = off\<rparr>"

definition exA :: Event where
  "exA = newEvent ''1'' (Date 2024 1 1 10 0 0 0 0) (Date 2024 1 1 11 0 0 0 0) None"

definition exB :: Event where
  "exB = newEvent ''2'' (Date 2024 1 1 10 0 0 500000000 0) (Date 2024 1 1 11 0 0 0 0) None"

definition exC :: Event where
  "exC = newEvent ''X'' (Date 2024 1 1 10 0 0 0 0) (Date 2024 1 1 11 0 0 0 0) (Some True)"

definition exD :: Event where
  "exD = newEvent [] (Date 2024 1 1 12 0 0 0 0) (Date 2024 1 1 13 0 0 0 0) None"

(*THEOREMS*)

section \<open>Properties of sorting\<close>

lemma mset_sortByStartAt: "mset (sortByStartAt tb events) = mset events"
proof -
  let ?k = "\<lambda>(i, event). (unixNano (StartAt event), tb i)"
  have "mset (sortByStartAt tb events) = image_mset snd (mset (sort_key ?k (enumerate 0 events)))"
    by (simp add: sortByStartAt_def)
  also have "\<dots> = image_mset snd (mset (enumerate 0 events))"
    by simp
  also have "\<dots> = mset (map snd (enumerate 0 events))"
    by (simp only: mset_map)
  finally show ?thesis by simp
qed

lemma set_sortByStartAt: "set (sortByStartAt tb events) = set events"
  using mset_sortByStartAt [of tb events] by (metis set_mset_mset)

lemma length_sortByStartAt: "length (sortByStartAt tb events) = length events"
  using mset_sortByStartAt [of tb events] by (metis size_mset)

lemma sorted_sortByStartAt:
  "sorted (map (\<lambda>event. unixNano (StartAt event)) (sortByStartAt tb events))"
proof -
  let ?k = "\<lambda>(i, event). (unixNano (StartAt event), tb i)"
  let ?ps = "sort_key ?k (enumerate 0 events)"
  have "sorted (map ?k ?ps)"
    by (rule sorted_sort_key)
  then have "sorted_wrt (\<lambda>p q. ?k p \<le> ?k q) ?ps"
    by (simp only: sorted_map)
  then have "sorted_wrt (\<lambda>p q. unixNano (StartAt (snd p)) \<le> unixNano (StartAt (snd q))) ?ps"
    by (rule sorted_wrt_mono_rel [rotated]) (auto simp: less_eq_prod_def)
  then show ?thesis
    by (simp add: sortByStartAt_def sorted_map sorted_wrt_map)
qed

lemma not_Before_sortByStartAt:
  "sorted_wrt (\<lambda>a b. \<not> Before (StartAt b) (StartAt a)) (sortByStartAt tb events)"
  using sorted_sortByStartAt [of tb events]
  by (simp add: sorted_map Before_def not_less)

section \<open>Properties of merging\<close>

lemma find_app:
  "find P (xs @ ys) = (case find P xs of None \<Rightarrow> find P ys | Some x \<Rightarrow> Some x)"
  by (induction xs) auto

lemma update_own_key:
  assumes "map fst m = map eventKey (map snd m)"
  shows "map fst (AList.update (eventKey event) event m) =
         map eventKey (map snd (AList.update (eventKey event) event m))"
  using assms by (induction m) auto

lemma fold_update_own_key:
  "map fst m = map eventKey (map snd m) \<Longrightarrow>
   map fst (fold (\<lambda>event m. AList.update (eventKey event) event m) events m) =
   map eventKey (map snd (fold (\<lambda>event m. AList.update (eventKey event) event m) events m))"
proof (induction events arbitrary: m)
  case Nil
  then show ?case by simp
next
  case (Cons a events)
  from Cons.prems have "map fst (AList.update (eventKey a) a m) =
      map eventKey (map snd (AList.update (eventKey a) a m))"
    by (rule update_own_key)
  then show ?case
    using Cons.IH [of "AList.update (eventKey a) a m"] by simp
qed

lemma fold_update_distinct:
  "distinct (map fst m) \<Longrightarrow>
   distinct (map fst (fold (\<lambda>event m. AList.update (eventKey event) event m) events m))"
  by (induction events arbitrary: m) (simp_all add: distinct_update)

lemma map_of_fold_update:
  "map_of (fold (\<lambda>event m. AList.update (eventKey event) event m) events m) k =
     (case find (\<lambda>x. eventKey x = k) (rev events) of
        Some event \<Rightarrow> Some event
      | None \<Rightarrow> map_of m k)"
proof (induction events arbitrary: m)
  case Nil
  show ?case by simp
next
  case (Cons a events)
  show ?case
    by (simp add: Cons.IH update_conv' find_app split: option.splits)
qed

lemma eventMap_own_key:
  "map fst (eventMap existing new) = map eventKey (map snd (eventMap existing new))"
  by (simp add: eventMap_def fold_update_own_key)

lemma eventMap_distinct: "distinct (map fst (eventMap existing new))"
  by (simp add: eventMap_def fold_update_distinct)

lemma map_of_eventMap:
  "map_of (eventMap existing new) k = find (\<lambda>x. eventKey x = k) (rev new @ rev existing)"
  by (simp add: eventMap_def map_of_fold_update find_app split: option.splits)

lemma eventMap_member:
  "event \<in> set (map snd (eventMap existing new)) \<longleftrightarrow>
     map_of (eventMap existing new) (eventKey event) = Some event"
proof
  assume "event \<in> set (map snd (eventMap existing new))"
  then obtain i where i: "i < length (eventMap existing new)"
      and e: "snd (eventMap existing new ! i) = event"
    by (auto simp: in_set_conv_nth)
  have "fst (eventMap existing new ! i) = map fst (eventMap existing new) ! i"
    using i by simp
  also have "\<dots> = map eventKey (map snd (eventMap existing new)) ! i"
    by (simp only: eventMap_own_key)
  also have "\<dots> = eventKey event"
    using i e by simp
  finally have "(eventKey event, event) = eventMap existing new ! i"
    using e by (metis prod.collapse)
  then have "(eventKey event, event) \<in> set (eventMap existing new)"
    using i by (metis nth_mem)
  then show "map_of (eventMap existing new) (eventKey event) = Some event"
    using eventMap_distinct by simp
next
  assume "map_of (eventMap existing new) (eventKey event) = Some event"
  then have "(eventKey event, event) \<in> set (eventMap existing new)"
    by (rule map_of_SomeD)
  then show "event \<in> set (map snd (eventMap existing new))"
    by force
qed

lemma find_key_image:
  "(\<exists>event. find (\<lambda>x. eventKey x = k) events = Some event) \<longleftrightarrow> k \<in> eventKey ` set events"
  by (induction events) auto

lemma mergeEvents_member:
  "event \<in> set (mergeEvents tb existing new) \<longleftrightarrow>
     find (\<lambda>x. eventKey x = eventKey event) (rev new @ rev existing) = Some event"
  using eventMap_member [of event existing new]
  by (simp only: mergeEvents_def Let_def set_sortByStartAt map_of_eventMap)

lemma mergeEvents_distinct_keys: "distinct (map eventKey (mergeEvents tb existing new))"
proof -
  have "mset (map eventKey (mergeEvents tb existing new)) =
      image_mset eventKey (mset (map snd (eventMap existing new)))"
    by (simp only: mergeEvents_def Let_def mset_map mset_sortByStartAt)
  also have "\<dots> = mset (map eventKey (map snd (eventMap existing new)))"
    by (simp only: mset_map)
  finally have "mset (map eventKey (mergeEvents tb existing new)) =
      mset (map fst (eventMap existing new))"
    by (simp only: eventMap_own_key)
  then show ?thesis
    using eventMap_distinct [of existing new] by (metis mset_eq_imp_distinct_iff)
qed

lemma mergeEvents_keys:
  "eventKey ` set (mergeEvents tb existing new) = eventKey ` (set existing \<union> set new)"
proof -
  have "k \<in> eventKey ` set (mergeEvents tb existing new) \<longleftrightarrow>
        k \<in> eventKey ` (set existing \<union> set new)" for k
  proof -
    have "k \<in> eventKey ` set (mergeEvents tb existing new) \<longleftrightarrow>
       (\<exists>event. find (\<lambda>x. eventKey x = k) (rev new @ rev existing) = Some event)"
    proof
      assume "k \<in> eventKey ` set (mergeEvents tb existing new)"
      then obtain event where "event \<in> set (mergeEvents tb existing new)" "k = eventKey event"
        by auto
      then show "\<exists>event. find (\<lambda>x. eventKey x = k) (rev new @ rev existing) = Some event"
        by (auto simp: mergeEvents_member)
    next
      assume "\<exists>event. find (\<lambda>x. eventKey x = k) (rev new @ rev existing) = Some event"
      then obtain event where f: "find (\<lambda>x. eventKey x = k) (rev new @ rev existing) = Some event"
        by auto
      then have k: "eventKey event = k"
        by (auto simp: find_Some_iff)
      with f have "event \<in> set (mergeEvents tb existing new)"
        by (simp add: mergeEvents_member)
      with k show "k \<in> eventKey ` set (mergeEvents tb existing new)"
        by auto
    qed
    also have "\<dots> \<longleftrightarrow> k \<in> eventKey ` set (rev new @ rev existing)"
      by (rule find_key_image)
    finally show ?thesis by auto
  qed
  then show ?thesis by blast
qed

lemma length_mergeEvents:
  "length (mergeEvents tb existing new) = card (eventKey ` (set existing \<union> set new))"
proof -
  have "length (mergeEvents tb existing new) = length (map eventKey (mergeEvents tb existing new))"
    by simp
  also have "\<dots> = card (set (map eventKey (mergeEvents tb existing new)))"
    by (rule distinct_card [symmetric]) (rule mergeEvents_distinct_keys)
  also have "\<dots> = card (eventKey ` (set existing \<union> set new))"
    by (simp add: mergeEvents_keys)
  finally show ?thesis .
qed

lemma mergeEvents_grows:
  assumes "distinct (map eventKey existing)"
  shows "length existing \<le> length (mergeEvents tb existing new)"
proof -
  have "length existing = card (eventKey ` set existing)"
    using assms by (metis distinct_card length_map set_map)
  also have "\<dots> \<le> card (eventKey ` (set existing \<union> set new))"
    by (rule card_mono) auto
  finally show ?thesis by (simp add: length_mergeEvents)
qed

section \<open>Properties of change detection\<close>

lemma fold_mark:
  "fold (\<lambda>event m. m(eventKey event := True)) events m k \<longleftrightarrow> m k \<or> k \<in> eventKey ` set events"
  by (induction events arbitrary: m) auto

lemma missingFrom_iff: "missingFrom m events \<longleftrightarrow> (\<exists>event \<in> set events. \<not> m (eventKey event))"
  by (induction events) auto

lemma hasChanges_iff:
  "hasChanges existing new \<longleftrightarrow>
     length existing \<noteq> length new \<or> \<not> eventKey ` set new \<subseteq> eventKey ` set existing"
  by (auto simp: hasChanges_def Let_def missingFrom_iff fold_mark)

section \<open>Decimal strings\<close>

lemma digitVal_digitChar: "d < 10 \<Longrightarrow> digitVal (digitChar d) = d"
proof -
  assume "d < 10"
  then consider "d = 0" | "d = 1" | "d = 2" | "d = 3" | "d = 4" | "d = 5" | "d = 6" | "d = 7"
    | "d = 8" | "d = 9"
    by atomize_elim arith
  then show ?thesis
    by cases (simp_all add: digitVal_def digitChar_def)
qed

lemma isDigitChar_digitChar: "d < 10 \<Longrightarrow> isDigitChar (digitChar d)"
proof -
  assume "d < 10"
  then consider "d = 0" | "d = 1" | "d = 2" | "d = 3" | "d = 4" | "d = 5" | "d = 6" | "d = 7"
    | "d = 8" | "d = 9"
    by atomize_elim arith
  then show ?thesis
    by cases (simp_all add: isDigitChar_def digitChar_def)
qed

lemma decimal_digits: "list_all isDigitChar (decimal n)"
proof (induction n rule: decimal.induct)
  case (1 n)
  show ?case
  proof (cases "n < 10")
    case True
    then show ?thesis
      by (subst decimal.simps) (simp add: isDigitChar_digitChar)
  next
    case False
    with "1" show ?thesis
      by (subst decimal.simps) (simp add: isDigitChar_digitChar)
  qed
qed

lemma decimal_value: "foldl (\<lambda>x c. x * 10 + digitVal c) 0 (decimal n) = n"
proof (induction n rule: decimal.induct)
  case (1 n)
  show ?case
  proof (cases "n < 10")
    case True
    then show ?thesis
      by (subst decimal.simps) (simp add: digitVal_digitChar)
  next
    case False
    with "1" show ?thesis
      by (subst decimal.simps) (simp add: digitVal_digitChar)
  qed
qed

lemma decimal_not_Nil: "decimal n \<noteq> []"
  by (subst decimal.simps) simp

lemma hd_decimal_digit: "isDigitChar (hd (decimal n))"
  using decimal_digits [of n] decimal_not_Nil [of n]
  by (cases "decimal n") simp_all

lemma isDigitChar_not_sign: "isDigitChar c \<Longrightarrow> c \<noteq> CHR ''-'' \<and> c \<noteq> CHR ''+''"
  by (auto simp: isDigitChar_def)

lemma atoi_decimal: "atoi (decimal n) = Some (int n)"
  using hd_decimal_digit [of n] decimal_not_Nil [of n]
  by (auto simp: atoi_def Let_def decimal_digits decimal_value dest: isDigitChar_not_sign)

section \<open>Sequential codes\<close>

lemma Code_assignSequentialCodes:
  "map Code (assignSequentialCodes tb events) = map decimal [1..<Suc (length events)]"
proof -
  let ?s = "sortByStartAt tb events"
  have "map Code (assignSequentialCodes tb events) =
        map (\<lambda>p. decimal (Suc (fst p))) (enumerate 0 ?s)"
    by (simp add: assignSequentialCodes_def Itoa_def case_prod_beta nat_add_distrib)
  also have "\<dots> = map (\<lambda>i. decimal (Suc i)) (map fst (enumerate 0 ?s))"
    by (simp only: map_map comp_def)
  also have "\<dots> = map (\<lambda>i. decimal (Suc i)) [0..<length events]"
    by (simp only: map_fst_enumerate length_sortByStartAt add_0)
  also have "\<dots> = map decimal (map Suc [0..<length events])"
    by simp
  also have "\<dots> = map decimal [1..<Suc (length events)]"
    by (simp only: map_Suc_upt One_nat_def)
  finally show ?thesis .
qed

lemma uncoded_assignSequentialCodes:
  "map (\<lambda>event. event\<lparr>Code := c\<rparr>) (assignSequentialCodes tb events) =
   map (\<lambda>event. event\<lparr>Code := c\<rparr>) (sortByStartAt tb events)"
proof -
  have "map (\<lambda>event. event\<lparr>Code := c\<rparr>) (assignSequentialCodes tb events) =
        map (\<lambda>p. (snd p)\<lparr>Code := c\<rparr>) (enumerate 0 (sortByStartAt tb events))"
    by (simp add: assignSequentialCodes_def case_prod_beta)
  also have "\<dots> = map (\<lambda>event. event\<lparr>Code := c\<rparr>) (map snd (enumerate 0 (sortByStartAt tb events)))"
    by (simp only: map_map comp_def)
  finally show ?thesis by simp
qed

lemma StartAt_assignSequentialCodes:
  "map StartAt (assignSequentialCodes tb events) = map StartAt (sortByStartAt tb events)"
proof -
  have "map StartAt (map (\<lambda>event. event\<lparr>Code := []\<rparr>) (assignSequentialCodes tb events)) =
        map StartAt (map (\<lambda>event. event\<lparr>Code := []\<rparr>) (sortByStartAt tb events))"
    by (simp only: uncoded_assignSequentialCodes)
  then show ?thesis by (simp add: comp_def)
qed

lemma length_assignSequentialCodes: "length (assignSequentialCodes tb events) = length events"
  by (simp add: assignSequentialCodes_def length_sortByStartAt)

lemma sorted_assignSequentialCodes:
  "sorted_wrt (\<lambda>a b. \<not> Before (StartAt b) (StartAt a)) (assignSequentialCodes tb events)"
proof -
  have "sorted_wrt (\<lambda>s t. \<not> Before t s) (map StartAt (sortByStartAt tb events))"
    using not_Before_sortByStartAt [of tb events] by (simp add: sorted_wrt_map)
  then have "sorted_wrt (\<lambda>s t. \<not> Before t s) (map StartAt (assignSequentialCodes tb events))"
    by (simp only: StartAt_assignSequentialCodes)
  then show ?thesis by (simp add: sorted_wrt_map)
qed

text \<open>
  C4. \<open>assignSequentialCodes\<close> returns the events of its input sorted ascending by start
  time, whatever order the unstable sort leaves among equal start times, and the codes
  of the result are the decimal strings of 1, 2, ..., n in this order, whatever codes
  the events had: apart from the codes, the result has the events of the input.
\<close>

theorem assignSequentialCodes_sorted_codes:
  "map Code (assignSequentialCodes tb events) = map decimal [1..<Suc (length events)] \<and>
   map (\<lambda>event. atoi (Code event)) (assignSequentialCodes tb events) =
     map (\<lambda>i. Some (int i)) [1..<Suc (length events)] \<and>
   sorted_wrt (\<lambda>a b. \<not> Before (StartAt b) (StartAt a)) (assignSequentialCodes tb events) \<and>
   mset (map (\<lambda>event. event\<lparr>Code := []\<rparr>) (assignSequentialCodes tb events)) =
     mset (map (\<lambda>event. event\<lparr>Code := []\<rparr>) events)"
proof -
  have codes: "map Code (assignSequentialCodes tb events) = map decimal [1..<Suc (length events)]"
    by (rule Code_assignSequentialCodes)
  have "map (\<lambda>event. atoi (Code event)) (assignSequentialCodes tb events) =
        map atoi (map Code (assignSequentialCodes tb events))"
    by simp
  also have "\<dots> = map (\<lambda>i. Some (int i)) [1..<Suc (length events)]"
    by (simp only: codes map_map comp_def atoi_decimal)
  finally have reads: "map (\<lambda>event. atoi (Code event)) (assignSequentialCodes tb events) =
        map (\<lambda>i. Some (int i)) [1..<Suc (length events)]" .
  have "mset (map (\<lambda>event. event\<lparr>Code := []\<rparr>) (assignSequentialCodes tb events)) =
        image_mset (\<lambda>event. event\<lparr>Code := []\<rparr>) (mset (sortByStartAt tb events))"
    by (simp only: uncoded_assignSequentialCodes mset_map)
  also have "\<dots> = mset (map (\<lambda>event. event\<lparr>Code := []\<rparr>) events)"
    by (simp only: mset_sortByStartAt mset_map)
  finally show ?thesis
    using codes reads sorted_assignSequentialCodes [of tb events] by blast
qed

section \<open>The example events\<close>

lemmas example_defs = exA_def exB_def exC_def exD_def newEvent_def Date_def
lemmas format_defs = formatRFC3339_def formatSeconds_def formatZone_def appendInt_def
  decimal.simps digitChar_def

lemma eventKey_exA: "eventKey exA = ''2024-01-01T10:00:00Z_2024-01-01T11:00:00Z''"
  by (simp add: eventKey_def example_defs format_defs)

lemma eventKey_exB: "eventKey exB = ''2024-01-01T10:00:00Z_2024-01-01T11:00:00Z''"
  by (simp add: eventKey_def example_defs format_defs)

lemma eventKey_exC: "eventKey exC = ''2024-01-01T10:00:00Z_2024-01-01T11:00:00Z''"
  by (simp add: eventKey_def example_defs format_defs)

lemma eventKey_exD: "eventKey exD = ''2024-01-01T12:00:00Z_2024-01-01T13:00:00Z''"
  by (simp add: eventKey_def example_defs format_defs)

lemmas eventKey_examples = eventKey_exA eventKey_exB eventKey_exC eventKey_exD

lemma unixNano_exA: "unixNano (StartAt exA) = 1704103200000000000"
  by (simp add: example_defs unixNano_def daysFromCivil_def)

lemma unixNano_exB: "unixNano (StartAt exB) = 1704103200500000000"
  by (simp add: example_defs unixNano_def daysFromCivil_def)

lemma unixNano_exC: "unixNano (StartAt exC) = 1704103200000000000"
  by (simp add: example_defs unixNano_def daysFromCivil_def)

lemma unixNano_exD: "unixNano (StartAt exD) = 1704110400000000000"
  by (simp add: example_defs unixNano_def daysFromCivil_def)

lemmas unixNano_examples = unixNano_exA unixNano_exB unixNano_exC unixNano_exD

lemma examples_differ:
  "exA \<noteq> exB" "exA \<noteq> exC" "exA \<noteq> exD" "exB \<noteq> exC" "exB \<noteq> exD" "exC \<noteq> exD"
  by (simp_all add: example_defs)

lemma merge_exA_exC_exD: "mergeEvents (\<lambda>i. i) [exA] [exC, exD] = [exC, exD]"
  by (simp add: mergeEvents_def eventMap_def sortByStartAt_def eventKey_examples unixNano_examples)

lemma merge_exA_exB: "mergeEvents (\<lambda>i. i) [exA, exB] [] = [exB]"
  by (simp add: mergeEvents_def eventMap_def sortByStartAt_def eventKey_examples unixNano_examples)

lemma merge_exA_exB_self: "mergeEvents (\<lambda>i. i) [exA, exB] [exA, exB] = [exB]"
  by (simp add: mergeEvents_def eventMap_def sortByStartAt_def eventKey_examples unixNano_examples)

lemma merge_exD_exA_self: "mergeEvents (\<lambda>i. i) [exD, exA] [exD, exA] = [exA, exD]"
  by (simp add: mergeEvents_def eventMap_def sortByStartAt_def eventKey_examples unixNano_examples)

section \<open>Merging\<close>

text \<open>
  C2, as amended. \<open>mergeEvents\<close> returns the union of the two lists by the merge key,
  which is the text of the start and end times to the second, each in its own zone:
  the keys of the result are pairwise distinct and are the keys of the two inputs;
  an event is in the result exactly when it is the last with its key, looking first
  through \<open>new\<close> from its end and then through \<open>existing\<close> from its end; and no event of
  the result starts before an earlier one.
\<close>

theorem mergeEvents_union_by_key:
  "distinct (map eventKey (mergeEvents tb existing new)) \<and>
   eventKey ` set (mergeEvents tb existing new) = eventKey ` (set existing \<union> set new) \<and>
   (\<forall>event. event \<in> set (mergeEvents tb existing new) \<longleftrightarrow>
      find (\<lambda>x. eventKey x = eventKey event) (rev new @ rev existing) = Some event) \<and>
   sorted_wrt (\<lambda>a b. \<not> Before (StartAt b) (StartAt a)) (mergeEvents tb existing new)"
proof -
  have "sorted_wrt (\<lambda>a b. \<not> Before (StartAt b) (StartAt a)) (mergeEvents tb existing new)"
    by (simp only: mergeEvents_def Let_def not_Before_sortByStartAt)
  then show ?thesis
    using mergeEvents_distinct_keys [of tb existing new] mergeEvents_keys [of tb existing new]
      mergeEvents_member [of _ tb existing new]
    by blast
qed

theorem mergeEvents_union_by_key_witness:
  "mergeEvents (\<lambda>i. i) [exA] [exC, exD] = [exC, exD] \<and>
   distinct (map eventKey (mergeEvents (\<lambda>i. i) [exA] [exC, exD])) \<and>
   eventKey ` set (mergeEvents (\<lambda>i. i) [exA] [exC, exD]) = eventKey ` (set [exA] \<union> set [exC, exD]) \<and>
   find (\<lambda>x. eventKey x = eventKey exC) (rev [exC, exD] @ rev [exA]) = Some exC \<and>
   exC \<in> set (mergeEvents (\<lambda>i. i) [exA] [exC, exD]) \<and>
   exA \<notin> set (mergeEvents (\<lambda>i. i) [exA] [exC, exD])"
proof -
  have found: "find (\<lambda>x. eventKey x = eventKey exC) (rev [exC, exD] @ rev [exA]) = Some exC"
    by (simp add: eventKey_examples)
  have "exA \<notin> set (mergeEvents (\<lambda>i. i) [exA] [exC, exD])"
    by (simp add: merge_exA_exC_exD examples_differ)
  with found show ?thesis
    using mergeEvents_union_by_key [of "\<lambda>i. i" "[exA]" "[exC, exD]"] merge_exA_exC_exD
    by blast
qed

text \<open>
  The claim as stated, with the pair of start and end time as the key, fails: two events
  that start half a second apart have different pairs and the same merge key, and
  only the later of them is in the result.
\<close>

theorem mergeEvents_pair_key_counterexample:
  "(StartAt exA, EndAt exA) \<noteq> (StartAt exB, EndAt exB) \<and>
   unixNano (StartAt exA) \<noteq> unixNano (StartAt exB) \<and>
   (StartAt exA, EndAt exA) \<in> (\<lambda>event. (StartAt event, EndAt event)) ` (set [exA, exB] \<union> set []) \<and>
   (StartAt exA, EndAt exA) \<notin> (\<lambda>event. (StartAt event, EndAt event)) ` set (mergeEvents (\<lambda>i. i) [exA, exB] [])"
proof -
  have "(StartAt exA, EndAt exA) \<noteq> (StartAt exB, EndAt exB)"
    by (simp add: example_defs)
  moreover have "unixNano (StartAt exA) \<noteq> unixNano (StartAt exB)"
    by (simp add: unixNano_examples)
  ultimately show ?thesis
    by (simp add: merge_exA_exB)
qed

section \<open>Merging a dataset with itself\<close>

lemma find_Some_mem: "find P xs = Some x \<Longrightarrow> x \<in> set xs"
  by (induction xs) (auto split: if_splits)

lemma mergeEvents_self_length:
  assumes "distinct (map eventKey d)"
  shows "length (mergeEvents tb d d) = length d"
proof -
  have "length (mergeEvents tb d d) = card (eventKey ` set d)"
    by (simp add: length_mergeEvents)
  also have "\<dots> = length d"
    using assms by (metis distinct_card length_map set_map)
  finally show ?thesis .
qed

text \<open>
  C5, as amended. For a dataset whose events have pairwise distinct merge keys,
  merging it with itself gives a dataset of the same size and the same set of keys,
  in fact the same events, and \<open>hasChanges\<close> reports no change.
\<close>

theorem mergeEvents_self_idempotent:
  assumes "distinct (map eventKey d)"
  shows "length (mergeEvents tb d d) = length d \<and>
         eventKey ` set (mergeEvents tb d d) = eventKey ` set d \<and>
         set (mergeEvents tb d d) = set d \<and>
         \<not> hasChanges d (mergeEvents tb d d)"
proof -
  have len: "length (mergeEvents tb d d) = length d"
    using assms by (rule mergeEvents_self_length)
  have keys: "eventKey ` set (mergeEvents tb d d) = eventKey ` set d"
    by (simp add: mergeEvents_keys)
  have sub: "set (mergeEvents tb d d) \<subseteq> set d"
  proof
    fix event
    assume "event \<in> set (mergeEvents tb d d)"
    then have "find (\<lambda>x. eventKey x = eventKey event) (rev d @ rev d) = Some event"
      by (simp only: mergeEvents_member)
    then have "event \<in> set (rev d @ rev d)"
      by (rule find_Some_mem)
    then show "event \<in> set d" by simp
  qed
  have "distinct (mergeEvents tb d d)"
    using mergeEvents_distinct_keys [of tb d d] by (simp add: distinct_map)
  then have "card (set (mergeEvents tb d d)) = length d"
    using len by (simp add: distinct_card)
  moreover have "card (set d) = length d"
    using assms by (simp add: distinct_map distinct_card)
  ultimately have "set (mergeEvents tb d d) = set d"
    using sub by (metis card_subset_eq List.finite_set)
  with len keys show ?thesis
    by (simp add: hasChanges_iff)
qed

theorem mergeEvents_self_idempotent_witness:
  "distinct (map eventKey [exD, exA]) \<and>
   mergeEvents (\<lambda>i. i) [exD, exA] [exD, exA] = [exA, exD] \<and>
   length (mergeEvents (\<lambda>i. i) [exD, exA] [exD, exA]) = length [exD, exA] \<and>
   \<not> hasChanges [exD, exA] (mergeEvents (\<lambda>i. i) [exD, exA] [exD, exA])"
proof -
  have d: "distinct (map eventKey [exD, exA])"
    by (simp add: eventKey_examples)
  from mergeEvents_self_idempotent [OF d, of "\<lambda>i. i"] d merge_exD_exA_self show ?thesis
    by blast
qed

text \<open>
  The claim as stated, for every dataset, fails on a dataset that is sorted and whose
  two events have different start times: they start within the same second, so
  merging the dataset with itself leaves one event of the two, and \<open>hasChanges\<close> then
  reports a change.
\<close>

theorem mergeEvents_self_counterexample:
  "(StartAt exA, EndAt exA) \<noteq> (StartAt exB, EndAt exB) \<and>
   Before (StartAt exA) (StartAt exB) \<and>
   length [exA, exB] = 2 \<and>
   length (mergeEvents (\<lambda>i. i) [exA, exB] [exA, exB]) = 1 \<and>
   hasChanges [exA, exB] (mergeEvents (\<lambda>i. i) [exA, exB] [exA, exB])"
proof -
  have "(StartAt exA, EndAt exA) \<noteq> (StartAt exB, EndAt exB)"
    by (simp add: example_defs)
  moreover have "Before (StartAt exA) (StartAt exB)"
    by (simp add: Before_def unixNano_examples)
  ultimately show ?thesis
    by (simp add: merge_exA_exB_self hasChanges_def)
qed

end
